theory Spec2Isabelle
  imports Complex_Main "HOL-Library.Multiset" "HOL-Library.Char_ord" "HOL-Library.List_Lexorder"
    "HOL-Library.Product_Lexorder"
begin

section \<open>Data: JSON payloads\<close>

text \<open>
  The extraction script moves JSON documents between the remote API, the progress
  files and memory. A JSON value as Python's \<open>json\<close> module decodes it: \<open>None\<close>,
  \<open>bool\<close>, \<open>int\<close>, \<open>float\<close>, \<open>str\<close>, \<open>list\<close> and \<open>dict\<close> with string keys. A dict
  is an association list; \<open>d.get(k)\<close> is \<open>map_of d k\<close>.
\<close>

datatype json =
    JNull
  | JBool bool
  | JInt int
  | JFloat real
  | JStr string
  | JArr "json list"
  | JObj "(string \<times> json) list"

text \<open>
  A session record and a player record are \<open>Dict[str, Any]\<close>, as the annotations of
  \<open>append_day_progress\<close> say.
\<close>

type_synonym pydict = "(string \<times> json) list"
type_synonym session = pydict
type_synonym player = pydict

section \<open>Per-day deduplication (extract\_all\_data\_directly, lines 305-316)\<close>

text \<open>
  \<^verbatim>\<open>sig = json.dumps(s.get("sessionDetails", {}), sort_keys=True)\<close>.
  The serializer \<open>json.dumps(..., sort_keys=True)\<close> is library code; it is the
  parameter \<open>dumps\<close>.
\<close>

definition session_signature :: "(json \<Rightarrow> string) \<Rightarrow> session \<Rightarrow> string" where
  "session_signature dumps s =
     dumps (case map_of s ''sessionDetails'' of None \<Rightarrow> JObj [] | Some d \<Rightarrow> d)"

text \<open>
  The loop \<^verbatim>\<open>for s in day_sessions\<close> with its two accumulators, the set \<open>seen\<close> and
  the list \<open>dedup\<close>.
\<close>

fun dedup_loop ::
  "(json \<Rightarrow> string) \<Rightarrow> session list \<Rightarrow> string set \<Rightarrow> session list \<Rightarrow> session list" where
  "dedup_loop dumps [] seen dedup = dedup"
| "dedup_loop dumps (s # rest) seen dedup =
     (let sig = session_signature dumps s
      in if sig \<notin> seen then dedup_loop dumps rest (insert sig seen) (dedup @ [s])
         else dedup_loop dumps rest seen dedup)"

text \<open>The guard \<^verbatim>\<open>if day_sessions:\<close> leaves an empty list as it is.\<close>

definition dedup_day :: "(json \<Rightarrow> string) \<Rightarrow> session list \<Rightarrow> session list" where
  "dedup_day dumps day_sessions =
     (if day_sessions \<noteq> [] then dedup_loop dumps day_sessions {} [] else day_sessions)"

section \<open>Range planner (get\_date\_ranges, lines 133-148)\<close>

text \<open>
  A naive \<open>datetime\<close> is a calendar date with a time of day, at microsecond
  resolution, and every calendar day has 86400 seconds. It is modelled as the number
  of microseconds since midnight of day 0; \<open>timedelta\<close> arithmetic is integer
  arithmetic. (Python bounds a \<open>datetime\<close> to the years 1 to 9999; the model does
  not.)
\<close>

type_synonym datetime = int

definition second :: int where
  "second = 1000000"

definition hour :: int where
  "hour = 3600 * second"

definition day :: int where
  "day = 86400 * second"

definition date_of :: "datetime \<Rightarrow> int" where
  "date_of t = t div day"


text \<open>The two values of \<open>period_type\<close> that set \<open>delta\<close>.\<close>

datatype period_type = Day | Hour

fun period_delta :: "period_type \<Rightarrow> int" where
  "period_delta Day = day"
| "period_delta Hour = hour"

text \<open>
  \<^verbatim>\<open>
  while current <= end_date:
      period_end = min(current + delta - timedelta(seconds=1), end_date)
      ranges.append((current, period_end))
      current = period_end + timedelta(seconds=1)
  \<close>
\<close>

function get_date_ranges_loop ::
  "period_type \<Rightarrow> datetime \<Rightarrow> datetime \<Rightarrow> (datetime \<times> datetime) list \<Rightarrow>
   (datetime \<times> datetime) list" where
  "get_date_ranges_loop period_type current end_date ranges =
     (if current \<le> end_date then
        (let period_end = min (current + period_delta period_type - second) end_date
         in get_date_ranges_loop period_type (period_end + second) end_date
              (ranges @ [(current, period_end)]))
      else ranges)"
  by pat_completeness auto
termination
proof (relation "measure (\<lambda>(p, current, end_date, ranges). nat (end_date - current + 1))")
  show "wf (measure (\<lambda>(p, current, end_date, ranges). nat (end_date - current + 1)))"
    by simp
next
  fix period_type :: period_type and current end_date :: datetime
    and ranges :: "(datetime \<times> datetime) list" and x :: datetime
  assume le: "current \<le> end_date"
    and x: "x = min (current + period_delta period_type - second) end_date"
  have "0 < period_delta period_type"
    by (cases period_type) (simp_all add: day_def hour_def second_def)
  moreover have "0 < second" by (simp add: second_def)
  ultimately have "current < x + second"
    using le x by (simp add: min_def)
  then show "((period_type, x + second, end_date, ranges @ [(current, x)]),
              (period_type, current, end_date, ranges))
             \<in> measure (\<lambda>(p, current, end_date, ranges). nat (end_date - current + 1))"
    using le by simp
qed

definition get_date_ranges ::
  "datetime \<Rightarrow> datetime \<Rightarrow> period_type \<Rightarrow> (datetime \<times> datetime) list" where
  "get_date_ranges start_date end_date period_type =
     get_date_ranges_loop period_type start_date end_date []"

text \<open>
  The \<open>k\<close>-th window of length \<open>delta\<close> anchored at the start of the range, clipped
  to its end. It is what the planner is compared with.
\<close>

definition period_at :: "period_type \<Rightarrow> datetime \<Rightarrow> datetime \<Rightarrow> nat \<Rightarrow> datetime \<times> datetime" where
  "period_at period_type start_date end_date k =
     (start_date + int k * period_delta period_type,
      min (start_date + (int k + 1) * period_delta period_type - second) end_date)"

section \<open>Incremental persistence: what a run directory holds\<close>

text \<open>
  A run directory holds \<^verbatim>\<open>checkpoint.json\<close> and the two append-only logs
  \<^verbatim>\<open>progress_sessions.jsonl\<close> and \<^verbatim>\<open>progress_players.jsonl\<close>. The files are modelled
  by what \<open>json.load\<close> and \<open>json.loads\<close> make of their text.

  The checkpoint document is the dict that \<open>update_checkpoint\<close> writes. Reading goes
  through \<open>dict.get\<close>, so every key is optional; a key that is present has the type it is
  written with (\<open>str\<close>, \<open>str\<close>, \<open>List[str]\<close>, \<open>int\<close>, \<open>str\<close>).
\<close>

record checkpoint =
  ck_range_start :: "string option"
  ck_range_end :: "string option"
  ck_processed_dates :: "string list option"
  ck_total_sessions :: "int option"
  ck_last_updated :: "string option"

definition empty_checkpoint :: checkpoint where
  "empty_checkpoint =
     \<lparr>ck_range_start = None, ck_range_end = None, ck_processed_dates = None,
      ck_total_sessions = None, ck_last_updated = None\<rparr>"

text \<open>
  What \<open>json.load\<close> returns for the checkpoint file: a dict, or some other JSON value, of
  which only its truth value matters.
\<close>

datatype checkpoint_value = Not_a_dict bool | Dict checkpoint

text \<open>
  A file that is read as one JSON document: missing, present but not readable as JSON
  (\<open>json.load\<close> or \<open>open\<close> raises: an empty or truncated file, for one), or holding a
  value.
\<close>

datatype 'a json_file = Missing | Unparseable | Holds 'a

text \<open>
  One line of a \<^verbatim>\<open>.jsonl\<close> log, as the loading loop meets it: blank after \<open>strip()\<close>;
  rejected by \<open>json.loads\<close> (\<open>JSONDecodeError\<close>, the line is skipped); decoded to a
  record; or \<open>Read_error\<close>: at this point the read fails, or processing the line raises
  something other than \<open>JSONDecodeError\<close> (valid JSON that is not a progress record).
  The enclosing \<^verbatim>\<open>except Exception: pass\<close> then ends the loop and keeps what was collected.
\<close>

datatype 'a jsonl_line = Blank | Undecodable | Decoded 'a | Read_error

record sessions_record =
  sr_date :: "string option"
  sr_sessions :: "session list option"

record players_record =
  pr_date :: "string option"
  pr_players :: "player list option"

text \<open>A log is \<open>None\<close> when \<open>os.path.exists\<close> is false.\<close>

record run_directory =
  checkpoint_file :: "checkpoint_value json_file"
  progress_sessions :: "sessions_record jsonl_line list option"
  progress_players :: "players_record jsonl_line list option"

datatype py_error = AttributeError | ValueError | TypeError

subsection \<open>load\_incremental\_progress (lines 34-101)\<close>

text \<open>\<open>_safe_read_json(path, default)\<close>: the default when the file is missing or unreadable.\<close>

definition safe_read_json :: "'a json_file \<Rightarrow> 'a \<Rightarrow> 'a" where
  "safe_read_json file dflt = (case file of Holds v \<Rightarrow> v | _ \<Rightarrow> dflt)"

text \<open>The truth value of \<^verbatim>\<open>if checkpoint:\<close>; a dict is true when it has a key.\<close>

fun checkpoint_truthy :: "checkpoint_value \<Rightarrow> bool" where
  "checkpoint_truthy (Not_a_dict b) = b"
| "checkpoint_truthy (Dict ck) = (ck \<noteq> empty_checkpoint)"

text \<open>
  The loop over the lines of the sessions log:
  \<^verbatim>\<open>
  date_key = rec.get('date')
  if date_key in processed_dates:
      sessions = rec.get('sessions', [])
      all_sessions.extend(sessions)
  \<close>
\<close>

fun load_sessions_lines ::
  "string set \<Rightarrow> sessions_record jsonl_line list \<Rightarrow> session list \<Rightarrow> session list" where
  "load_sessions_lines processed [] all_sessions = all_sessions"
| "load_sessions_lines processed (Blank # rest) all_sessions =
     load_sessions_lines processed rest all_sessions"
| "load_sessions_lines processed (Undecodable # rest) all_sessions =
     load_sessions_lines processed rest all_sessions"
| "load_sessions_lines processed (Read_error # rest) all_sessions = all_sessions"
| "load_sessions_lines processed (Decoded rec # rest) all_sessions =
     (case sr_date rec of
        None \<Rightarrow> load_sessions_lines processed rest all_sessions
      | Some date_key \<Rightarrow>
          if date_key \<in> processed
          then load_sessions_lines processed rest
                 (all_sessions @ (case sr_sessions rec of None \<Rightarrow> [] | Some sessions \<Rightarrow> sessions))
          else load_sessions_lines processed rest all_sessions)"

text \<open>The same loop over the players log: \<^verbatim>\<open>all_player_details[date_key] = players\<close>.\<close>

fun load_players_lines ::
  "string set \<Rightarrow> players_record jsonl_line list \<Rightarrow> (string \<rightharpoonup> player list) \<Rightarrow>
   (string \<rightharpoonup> player list)" where
  "load_players_lines processed [] all_player_details = all_player_details"
| "load_players_lines processed (Blank # rest) all_player_details =
     load_players_lines processed rest all_player_details"
| "load_players_lines processed (Undecodable # rest) all_player_details =
     load_players_lines processed rest all_player_details"
| "load_players_lines processed (Read_error # rest) all_player_details = all_player_details"
| "load_players_lines processed (Decoded rec # rest) all_player_details =
     (case pr_date rec of
        None \<Rightarrow> load_players_lines processed rest all_player_details
      | Some date_key \<Rightarrow>
          if date_key \<in> processed
          then load_players_lines processed rest
                 (all_player_details
                    (date_key \<mapsto> (case pr_players rec of None \<Rightarrow> [] | Some players \<Rightarrow> players)))
          else load_players_lines processed rest all_player_details)"

text \<open>
  The part of the function after the checkpoint is read: both logs are loaded only when
  \<open>processed_dates\<close> is not empty and the log exists.
\<close>

definition load_progress_files ::
  "string set \<Rightarrow> run_directory \<Rightarrow> string set \<times> session list \<times> (string \<rightharpoonup> player list)" where
  "load_progress_files processed run_dir =
     (processed,
      (case progress_sessions run_dir of
         Some lines \<Rightarrow> if processed \<noteq> {} then load_sessions_lines processed lines [] else []
       | None \<Rightarrow> []),
      (case progress_players run_dir of
         Some lines \<Rightarrow> if processed \<noteq> {} then load_players_lines processed lines Map.empty
                       else Map.empty
       | None \<Rightarrow> Map.empty))"

text \<open>
  \<open>strftime_ymd\<close> is \<open>datetime.strftime('%Y-%m-%d')\<close>, library code taken as a parameter.
  A true checkpoint value that is not a dict has no \<open>get\<close>: \<open>AttributeError\<close>.
\<close>

definition load_incremental_progress ::
  "(datetime \<Rightarrow> string) \<Rightarrow> datetime \<Rightarrow> datetime \<Rightarrow> run_directory \<Rightarrow>
   py_error + (string set \<times> session list \<times> (string \<rightharpoonup> player list))" where
  "load_incremental_progress strftime_ymd range_start range_end run_dir =
     (let checkpoint = safe_read_json (checkpoint_file run_dir) (Dict empty_checkpoint)
      in if checkpoint_truthy checkpoint then
           (case checkpoint of
              Not_a_dict b \<Rightarrow> Inl AttributeError
            | Dict ck \<Rightarrow>
                if ck_range_start ck = Some (strftime_ymd range_start)
                   \<and> ck_range_end ck = Some (strftime_ymd range_end)
                then Inr (load_progress_files
                            (set (case ck_processed_dates ck of None \<Rightarrow> [] | Some ds \<Rightarrow> ds))
                            run_dir)
                else Inr ({}, [], Map.empty))
         else Inr (load_progress_files {} run_dir))"



section \<open>The API client and the day extractor\<close>

text \<open>
  \<open>StatsportsClient.post\<close> sends one request (with its own retries) and returns the
  decoded body or raises. The two endpoints used answer with a list of dicts. A call is
  recorded with the timeout in force; the dates of a session request are kept as
  instants (\<open>format_date_for_api\<close> only prints them).
\<close>

datatype api_call =
    Get_full_sessions string datetime datetime
  | Get_player_details string string

datatype post_outcome = Post_raises | Post_returns "pydict list"

text \<open>The value of \<^verbatim>\<open>STATSPORTS_DISCOVERY_TIMEOUT_SECS\<close>, as \<open>int()\<close> reads it.\<close>

datatype env_value = Env_unset | Env_int int | Env_not_an_int

text \<open>
  The client with the remote side: the fields of \<open>StatsportsClient\<close> that the extractor
  reads or writes (\<open>timeout\<close> is set by \<open>__init__\<close>, so \<open>getattr(client, 'timeout', 60)\<close>
  finds it), the environment variable, the outcome of the \<open>n\<close>-th \<open>post\<close> of the run,
  and the calls made so far, in order.
\<close>

record api =
  api_key :: string
  timeout :: real
  discovery_env :: env_value
  responses :: "nat \<Rightarrow> post_outcome"
  posts :: "(api_call \<times> real) list"

definition post :: "api \<Rightarrow> api_call \<Rightarrow> post_outcome \<times> api" where
  "post client call =
     (responses client (length (posts client)),
      client\<lparr>posts := posts client @ [(call, timeout client)]\<rparr>)"

text \<open>
  \<open>get_full_sessions\<close> (lines 154-167): \<^verbatim>\<open>return result if result else []\<close>, and \<open>None\<close>
  when \<open>post\<close> raises.
\<close>

definition get_full_sessions ::
  "api \<Rightarrow> datetime \<Rightarrow> datetime \<Rightarrow> session list option \<times> api" where
  "get_full_sessions client start_date end_date =
     (case post client (Get_full_sessions (api_key client) start_date end_date) of
        (Post_returns result, client') \<Rightarrow> (Some (if result \<noteq> [] then result else []), client')
      | (Post_raises, client') \<Rightarrow> (None, client'))"

text \<open>\<open>get_player_details\<close> (lines 169-181): the empty list when \<open>post\<close> raises.\<close>

definition get_player_details :: "api \<Rightarrow> string \<Rightarrow> player list \<times> api" where
  "get_player_details client session_date =
     (case post client (Get_player_details (api_key client) session_date) of
        (Post_returns result, client') \<Rightarrow> (if result \<noteq> [] then result else [], client')
      | (Post_raises, client') \<Rightarrow> ([], client'))"

text \<open>\<open>d.replace(hour=h, minute=m, second=s)\<close> keeps the date and the microseconds.\<close>

definition replace_hms :: "datetime \<Rightarrow> int \<Rightarrow> int \<Rightarrow> int \<Rightarrow> datetime" where
  "replace_hms d h m s = date_of d * day + (h * 3600 + m * 60 + s) * second + d mod second"

text \<open>
  \<open>has_data_for_day\<close> (lines 183-216). \<open>int(os.getenv(...))\<close> stands before the \<open>try\<close>: its
  \<open>ValueError\<close> leaves the function. Inside the \<open>try\<close>, \<open>strptime_ymd\<close>
  (\<open>datetime.strptime(date_str, "%Y-%m-%d")\<close>, a parameter) may raise, which the handler
  turns into \<open>False\<close>. The \<open>finally\<close> clause restores the timeout on every path that
  entered the \<open>try\<close>.
\<close>

definition has_data_for_day ::
  "(string \<Rightarrow> datetime option) \<Rightarrow> api \<Rightarrow> string \<Rightarrow> (py_error + bool) \<times> api" where
  "has_data_for_day strptime_ymd client date_str =
     (let original_timeout = timeout client
      in case (case discovery_env client of
                 Env_unset \<Rightarrow> Some 10 | Env_int n \<Rightarrow> Some n | Env_not_an_int \<Rightarrow> None) of
           None \<Rightarrow> (Inl ValueError, client)
         | Some discovery_timeout \<Rightarrow>
             (let client1 = client\<lparr>timeout := of_int discovery_timeout\<rparr>
              in case strptime_ymd date_str of
                   None \<Rightarrow> (Inr False, client1\<lparr>timeout := original_timeout\<rparr>)
                 | Some day_start \<Rightarrow>
                     (let day_end = replace_hms day_start 23 59 59
                      in case get_full_sessions client1 day_start day_end of
                           (response, client2) \<Rightarrow>
                             (Inr (case response of None \<Rightarrow> False | Some r \<Rightarrow> 0 < length r),
                              client2\<lparr>timeout := original_timeout\<rparr>))))"

text \<open>
  The hourly loop of \<open>extract_day_with_smart_fallback\<close> (lines 247-266). The pause
  between requests has no effect on the result.
\<close>

fun hourly_fallback ::
  "api \<Rightarrow> (datetime \<times> datetime) list \<Rightarrow> session list \<Rightarrow> session list \<times> api" where
  "hourly_fallback client [] all_day_sessions = (all_day_sessions, client)"
| "hourly_fallback client ((hour_start, hour_end) # rest) all_day_sessions =
     (case get_full_sessions client hour_start hour_end of
        (Some hour_sessions, client') \<Rightarrow>
          if 0 < length hour_sessions
          then hourly_fallback client' rest (all_day_sessions @ hour_sessions)
          else hourly_fallback client' rest all_day_sessions
      | (None, client') \<Rightarrow> hourly_fallback client' rest all_day_sessions)"

text \<open>\<open>extract_day_with_smart_fallback\<close> (lines 218-269).\<close>

definition extract_day_with_smart_fallback ::
  "(string \<Rightarrow> datetime option) \<Rightarrow> api \<Rightarrow> datetime \<Rightarrow> datetime \<Rightarrow> string \<Rightarrow>
   (py_error + session list) \<times> api" where
  "extract_day_with_smart_fallback strptime_ymd client day_start day_end date_str =
     (case get_full_sessions client day_start day_end of
        (Some day_sessions, client1) \<Rightarrow>
          if 0 < length day_sessions then (Inr day_sessions, client1) else (Inr [], client1)
      | (None, client1) \<Rightarrow>
          (case has_data_for_day strptime_ymd client1 date_str of
             (Inl err, client2) \<Rightarrow> (Inl err, client2)
           | (Inr False, client2) \<Rightarrow> (Inr [], client2)
           | (Inr True, client2) \<Rightarrow>
               (case hourly_fallback client2 (get_date_ranges day_start day_end Hour) [] of
                  (all_day_sessions, client3) \<Rightarrow> (Inr all_day_sessions, client3))))"

text \<open>What a response contributes to the hourly accumulator.\<close>

fun response_sessions :: "post_outcome \<Rightarrow> session list" where
  "response_sessions Post_raises = []"
| "response_sessions (Post_returns result) = result"

text \<open>The timeout that the probe sets: the environment variable, or 10 when it is unset.\<close>

definition probe_timeout :: "api \<Rightarrow> int" where
  "probe_timeout client = (case discovery_env client of Env_int n \<Rightarrow> n | _ \<Rightarrow> 10)"

section \<open>Writing progress, and the orchestrator\<close>

text \<open>
  A write to the run directory may fail; both writers catch the exception and print a
  warning. The outcome of the \<open>n\<close>-th write of a run is scripted: it succeeds, it fails
  when the file is opened (nothing is written), or it fails after the file was opened.
\<close>

datatype write_outcome = Write_ok | Open_fails | Write_fails

text \<open>
  The journal records the calls of the two writers in order: an append with the date key
  and whether the sessions line and the players line were written, and a checkpoint
  write with the document and its outcome.
\<close>

datatype event =
    Log_append string bool bool
  | Checkpoint_write checkpoint write_outcome

record store =
  directory :: run_directory
  write_outcomes :: "nat \<Rightarrow> write_outcome"
  writes :: nat
  utcnow :: "nat \<Rightarrow> string"
  journal :: "event list"

text \<open>\<^verbatim>\<open>open(path, 'a')\<close> creates the log when it is missing; the line decodes to the record.\<close>

definition append_line :: "'a jsonl_line list option \<Rightarrow> 'a \<Rightarrow> 'a jsonl_line list option" where
  "append_line lg r = Some ((case lg of None \<Rightarrow> [] | Some ls \<Rightarrow> ls) @ [Decoded r])"

text \<open>
  \<open>append_day_progress\<close> (lines 103-116): two appends, each in its own \<open>try\<close>. An
  append that fails is modelled as writing nothing.
\<close>

definition append_day_progress ::
  "store \<Rightarrow> string \<Rightarrow> session list \<Rightarrow> player list \<Rightarrow> store" where
  "append_day_progress st date_key sessions players =
     (let sessions_written = (write_outcomes st (writes st) = Write_ok);
          players_written = (write_outcomes st (Suc (writes st)) = Write_ok);
          d = directory st;
          d1 = (if sessions_written
                then d\<lparr>progress_sessions := append_line (progress_sessions d)
                         \<lparr>sr_date = Some date_key, sr_sessions = Some sessions\<rparr>\<rparr>
                else d);
          d2 = (if players_written
                then d1\<lparr>progress_players := append_line (progress_players d1)
                          \<lparr>pr_date = Some date_key, pr_players = Some players\<rparr>\<rparr>
                else d1)
      in st\<lparr>directory := d2, writes := writes st + 2,
            journal := journal st @ [Log_append date_key sessions_written players_written]\<rparr>)"

text \<open>
  \<open>update_checkpoint\<close> (lines 118-131) opens \<^verbatim>\<open>checkpoint.json\<close> itself with mode
  \<^verbatim>\<open>'w'\<close> and dumps the document into it. The successive contents of the file during the
  call: what it held before; once \<open>open\<close> has truncated it, an empty and then partly
  written file, which is not a JSON document; after the \<open>with\<close> block, the new document.
  A failure in \<open>open\<close> leaves the file as it was; a failure while writing leaves the
  partly written file.
\<close>

definition checkpoint_write_states ::
  "checkpoint_value json_file \<Rightarrow> checkpoint \<Rightarrow> write_outcome \<Rightarrow> checkpoint_value json_file list" where
  "checkpoint_write_states old data outcome =
     (case outcome of
        Open_fails \<Rightarrow> [old]
      | Write_fails \<Rightarrow> [old, Unparseable]
      | Write_ok \<Rightarrow> [old, Unparseable, Holds (Dict data)])"

definition update_checkpoint ::
  "(datetime \<Rightarrow> string) \<Rightarrow> store \<Rightarrow> datetime \<Rightarrow> datetime \<Rightarrow> string list \<Rightarrow> int \<Rightarrow> store" where
  "update_checkpoint strftime_ymd st range_start range_end dates total_sessions =
     (let data = \<lparr>ck_range_start = Some (strftime_ymd range_start),
                   ck_range_end = Some (strftime_ymd range_end),
                   ck_processed_dates = Some dates,
                   ck_total_sessions = Some total_sessions,
                   ck_last_updated = Some (utcnow st (writes st))\<rparr>;
          outcome = write_outcomes st (writes st);
          d = directory st
      in st\<lparr>directory :=
              d\<lparr>checkpoint_file := last (checkpoint_write_states (checkpoint_file d) data outcome)\<rparr>,
            writes := Suc (writes st),
            journal := journal st @ [Checkpoint_write data outcome]\<rparr>)"

subsection \<open>extract\_all\_data\_directly (lines 271-341)\<close>

text \<open>
  The state of the orchestrator: its three collections, the client with the remote side,
  and the run directory with its writers.
\<close>

record orchestrator =
  processed_dates :: "string set"
  all_sessions :: "session list"
  all_player_details :: "string \<rightharpoonup> player list"
  remote :: api
  disk :: store

text \<open>
  The body of the loop over \<open>daily_ranges\<close>. An exception that leaves
  \<open>extract_day_with_smart_fallback\<close> leaves the orchestrator. \<open>sorted(list(s))\<close> is
  \<open>sorted_list_of_set\<close>; strings compare by code point, lexicographically.
\<close>

fun process_day ::
  "(datetime \<Rightarrow> string) \<Rightarrow> (string \<Rightarrow> datetime option) \<Rightarrow> (json \<Rightarrow> string) \<Rightarrow>
   datetime \<Rightarrow> datetime \<Rightarrow> datetime \<times> datetime \<Rightarrow> orchestrator \<Rightarrow>
   py_error option \<times> orchestrator" where
  "process_day strftime_ymd strptime_ymd dumps start_date end_date (day_start, day_end) s =
     (let date_str = strftime_ymd day_start;
          date_key_full = date_str @ ''T00:00:00Z''
      in if date_str \<in> processed_dates s then (None, s)
         else
           (case extract_day_with_smart_fallback strptime_ymd (remote s) day_start day_end
                   date_str of
              (Inl err, client1) \<Rightarrow> (Some err, s\<lparr>remote := client1\<rparr>)
            | (Inr fetched, client1) \<Rightarrow>
                (let day_sessions = dedup_day dumps fetched
                 in case (if day_sessions \<noteq> [] then get_player_details client1 date_key_full
                          else ([], client1)) of
                      (player_details_for_day, client2) \<Rightarrow>
                        (let details =
                               (if player_details_for_day \<noteq> []
                                then (all_player_details s)
                                       (date_key_full \<mapsto> player_details_for_day)
                                else all_player_details s);
                             sessions = all_sessions s @ day_sessions;
                             st1 = append_day_progress (disk s) date_key_full day_sessions
                                     player_details_for_day;
                             dates = insert date_str (processed_dates s);
                             st2 = update_checkpoint strftime_ymd st1 start_date end_date
                                     (sorted_list_of_set dates) (int (length sessions))
                         in (None,
                             s\<lparr>processed_dates := dates, all_sessions := sessions,
                               all_player_details := details, remote := client2,
                               disk := st2\<rparr>)))))"

fun days_loop ::
  "(datetime \<Rightarrow> string) \<Rightarrow> (string \<Rightarrow> datetime option) \<Rightarrow> (json \<Rightarrow> string) \<Rightarrow>
   datetime \<Rightarrow> datetime \<Rightarrow> (datetime \<times> datetime) list \<Rightarrow> orchestrator \<Rightarrow>
   py_error option \<times> orchestrator" where
  "days_loop strftime_ymd strptime_ymd dumps start_date end_date [] s = (None, s)"
| "days_loop strftime_ymd strptime_ymd dumps start_date end_date (period # rest) s =
     (case process_day strftime_ymd strptime_ymd dumps start_date end_date period s of
        (Some err, s') \<Rightarrow> (Some err, s')
      | (None, s') \<Rightarrow> days_loop strftime_ymd strptime_ymd dumps start_date end_date rest s')"


text \<open>
  The processed dates that a checkpoint document lists, and the lists that the checkpoint
  writes of a journal carry, in order.
\<close>

definition listed_dates :: "checkpoint \<Rightarrow> string list" where
  "listed_dates ck = (case ck_processed_dates ck of None \<Rightarrow> [] | Some ds \<Rightarrow> ds)"

fun checkpoint_dates :: "event list \<Rightarrow> string list list" where
  "checkpoint_dates [] = []"
| "checkpoint_dates (Log_append k a b # evs) = checkpoint_dates evs"
| "checkpoint_dates (Checkpoint_write ck outcome # evs) = listed_dates ck # checkpoint_dates evs"


text \<open>
  The shape of the journal that the loop writes when it starts with the processed dates
  \<open>P\<close> and ends with \<open>Q\<close>: for each day it processes, one append under the day's key
  followed by one checkpoint write that lists the dates processed so far.
\<close>

inductive run_events :: "string set \<Rightarrow> event list \<Rightarrow> string set \<Rightarrow> bool" where
  no_day: "run_events P [] P"
| one_day: "d \<notin> P \<Longrightarrow> ck_processed_dates ck = Some ds \<Longrightarrow> set ds = insert d P \<Longrightarrow>
     run_events (insert d P) evs Q \<Longrightarrow>
     run_events P (Log_append (d @ ''T00:00:00Z'') a b # Checkpoint_write ck outcome # evs) Q"


section \<open>Merging CSV datasets (update\_mason\_mount.py, combine\_runs.py)\<close>






















section \<open>Properties of the per-day deduplication\<close>

text \<open>
  The loop keeps the records at the positions that are the first of their signature,
  in their order.
\<close>

lemma dedup_loop_index:
  "dedup_loop dumps xs seen acc =
     acc @ map (nth xs) (filter (\<lambda>i. session_signature dumps (xs ! i) \<notin> seen \<and>
            (\<forall>j<i. session_signature dumps (xs ! j) \<noteq> session_signature dumps (xs ! i)))
          [0..<length xs])"
proof (induction xs arbitrary: seen acc)
  case Nil
  show ?case by simp
next
  case (Cons s rest)
  have upt: "[0..<length (s # rest)] = 0 # map Suc [0..<length rest]"
    by (simp add: upt_conv_Cons map_Suc_upt del: upt_Suc)
  show ?case
    unfolding upt
    by (auto simp: Cons.IH Let_def filter_map o_def All_less_Suc2
             intro!: filter_cong arg_cong2[where f=map])
qed

lemma dedup_loop_acc:
  "dedup_loop dumps xs seen acc = acc @ dedup_loop dumps xs seen []"
proof (induction xs arbitrary: seen acc)
  case Nil show ?case by simp
next
  case (Cons s rest)
  have a: "dedup_loop dumps rest S (acc @ [s]) = (acc @ [s]) @ dedup_loop dumps rest S []" for S
    by (rule Cons.IH)
  have b: "dedup_loop dumps rest S [s] = [s] @ dedup_loop dumps rest S []" for S
    by (rule Cons.IH)
  have c: "dedup_loop dumps rest seen acc = acc @ dedup_loop dumps rest seen []"
    by (rule Cons.IH)
  show ?case
    by (simp only: dedup_loop.simps Let_def a b c append_Nil append_assoc split: if_split) simp
qed

lemma dedup_loop_sigs:
  "set (map (session_signature dumps) (dedup_loop dumps xs seen [])) = session_signature dumps ` set xs - seen"
proof (induction xs arbitrary: seen)
  case Nil show ?case by simp
next
  case (Cons s rest)
  show ?case
    using Cons.IH[of seen] Cons.IH[of "insert (session_signature dumps s) seen"]
      dedup_loop_acc[of dumps rest "insert (session_signature dumps s) seen" "[s]"]
    by (auto simp: Let_def)
qed

lemma dedup_loop_distinct:
  "distinct (map (session_signature dumps) (dedup_loop dumps xs seen []))"
proof (induction xs arbitrary: seen)
  case Nil show ?case by simp
next
  case (Cons s rest)
  show ?case
    using Cons.IH[of seen] Cons.IH[of "insert (session_signature dumps s) seen"]
      dedup_loop_acc[of dumps rest "insert (session_signature dumps s) seen" "[s]"]
      dedup_loop_sigs[of dumps rest "insert (session_signature dumps s) seen"]
    by (auto simp: Let_def)
qed

lemma dedup_loop_fixed:
  "distinct (map (session_signature dumps) xs) \<Longrightarrow>
   session_signature dumps ` set xs \<inter> seen = {} \<Longrightarrow>
   dedup_loop dumps xs seen [] = xs"
proof (induction xs arbitrary: seen)
  case Nil show ?case by simp
next
  case (Cons s rest)
  have "dedup_loop dumps rest (insert (session_signature dumps s) seen) [] = rest"
    using Cons.prems by (intro Cons.IH) auto
  then show ?case
    using Cons.prems dedup_loop_acc[of dumps rest "insert (session_signature dumps s) seen" "[s]"]
    by (auto simp: Let_def)
qed

lemma dedup_day_idem: "dedup_day dumps (dedup_day dumps xs) = dedup_day dumps xs"
  using dedup_loop_fixed[OF dedup_loop_distinct, of dumps xs "{}" "{}"]
  by (simp add: dedup_day_def)

lemma map_nth_skip:
  "j < length xs \<Longrightarrow> map (nth xs) (filter (\<lambda>k. k \<noteq> j) [0..<length xs]) = take j xs @ drop (Suc j) xs"
proof -
  assume j: "j < length xs"
  have "[0..<length xs] = [0..<j] @ j # [Suc j..<length xs]"
    using j by (metis le_add_diff_inverse less_imp_le_nat upt_add_eq_append upt_conv_Cons zero_le)
  moreover have "filter (\<lambda>k. k \<noteq> j) [0..<j] = [0..<j]" by (rule filter_True) simp
  moreover have "filter (\<lambda>k. k \<noteq> j) [Suc j..<length xs] = [Suc j..<length xs]" by (rule filter_True) simp
  moreover have "map (nth xs) [0..<j] = take j xs"
    using j by (auto simp: list_eq_iff_nth_eq)
  moreover have "map (nth xs) [Suc j..<length xs] = drop (Suc j) xs"
    using j by (auto simp: list_eq_iff_nth_eq)
  ultimately show ?thesis by simp
qed

text \<open>
  Claim C5. For every input list the per-day deduplication keeps exactly the records
  whose signature does not occur earlier in the list, in their original order; applying
  it to its own output changes nothing; and when exactly two records of a list share a
  signature (positions \<open>i < j\<close>), the result is the list without position \<open>j\<close>: the
  earlier record survives, the later one is dropped, everything else stays.
\<close>

theorem dedup_day_first_occurrences:
  "dedup_day dumps xs =
     map (nth xs)
       (filter (\<lambda>i. \<forall>j<i. session_signature dumps (xs ! j) \<noteq> session_signature dumps (xs ! i))
          [0..<length xs])
   \<and> dedup_day dumps (dedup_day dumps xs) = dedup_day dumps xs
   \<and> (\<forall>i j. i < j \<and> j < length xs
          \<and> session_signature dumps (xs ! i) = session_signature dumps (xs ! j)
          \<and> (\<forall>a b. a < b \<and> b < length xs
                 \<and> session_signature dumps (xs ! a) = session_signature dumps (xs ! b)
                 \<longrightarrow> a = i \<and> b = j)
        \<longrightarrow> dedup_day dumps xs = take j xs @ drop (Suc j) xs)"
proof (intro conjI allI impI)
  show first: "dedup_day dumps xs =
     map (nth xs)
       (filter (\<lambda>i. \<forall>j<i. session_signature dumps (xs ! j) \<noteq> session_signature dumps (xs ! i))
          [0..<length xs])"
    by (simp add: dedup_day_def dedup_loop_index)
  show "dedup_day dumps (dedup_day dumps xs) = dedup_day dumps xs"
    by (rule dedup_day_idem)
  fix i j
  assume h: "i < j \<and> j < length xs
          \<and> session_signature dumps (xs ! i) = session_signature dumps (xs ! j)
          \<and> (\<forall>a b. a < b \<and> b < length xs
                 \<and> session_signature dumps (xs ! a) = session_signature dumps (xs ! b)
                 \<longrightarrow> a = i \<and> b = j)"
  have "filter (\<lambda>k. \<forall>m<k. session_signature dumps (xs ! m) \<noteq> session_signature dumps (xs ! k))
          [0..<length xs] = filter (\<lambda>k. k \<noteq> j) [0..<length xs]"
  proof (rule filter_cong[OF refl])
    fix k assume "k \<in> set [0..<length xs]"
    then have k: "k < length xs" by simp
    show "(\<forall>m<k. session_signature dumps (xs ! m) \<noteq> session_signature dumps (xs ! k)) = (k \<noteq> j)"
    proof
      assume a: "\<forall>m<k. session_signature dumps (xs ! m) \<noteq> session_signature dumps (xs ! k)"
      show "k \<noteq> j" using a h by auto
    next
      assume "k \<noteq> j"
      then show "\<forall>m<k. session_signature dumps (xs ! m) \<noteq> session_signature dumps (xs ! k)"
        using h k by blast
    qed
  qed
  then show "dedup_day dumps xs = take j xs @ drop (Suc j) xs"
    using h map_nth_skip[of j xs] by (simp add: first)
qed

text \<open>
  The theorem at a list of three records whose first and third share their session
  details: the third is dropped.
\<close>

theorem dedup_day_first_occurrences_witness:
  "(0::nat) < 2 \<and> 2 < length [[(''sessionDetails'', JStr ''a''), (''n'', JInt 1)],
                                [(''sessionDetails'', JStr ''b'')],
                                [(''sessionDetails'', JStr ''a''), (''n'', JInt 2)]]
   \<and> dedup_day (\<lambda>j. case j of JStr s \<Rightarrow> s | _ \<Rightarrow> [])
        [[(''sessionDetails'', JStr ''a''), (''n'', JInt 1)],
         [(''sessionDetails'', JStr ''b'')],
         [(''sessionDetails'', JStr ''a''), (''n'', JInt 2)]]
     = [[(''sessionDetails'', JStr ''a''), (''n'', JInt 1)],
        [(''sessionDetails'', JStr ''b'')]]"
proof -
  let ?d = "\<lambda>j. case j of JStr s \<Rightarrow> s | _ \<Rightarrow> []"
  let ?xs = "[[(''sessionDetails'', JStr ''a''), (''n'', JInt 1)],
              [(''sessionDetails'', JStr ''b'')],
              [(''sessionDetails'', JStr ''a''), (''n'', JInt 2)]]"
  have hyp: "(0::nat) < 2 \<and> 2 < length ?xs
          \<and> session_signature ?d (?xs ! 0) = session_signature ?d (?xs ! 2)
          \<and> (\<forall>a b. a < b \<and> b < length ?xs
                 \<and> session_signature ?d (?xs ! a) = session_signature ?d (?xs ! b)
                 \<longrightarrow> a = 0 \<and> b = 2)"
    by (auto simp: session_signature_def less_Suc_eq numeral_3_eq_3 nth_Cons')
  have "dedup_day ?d ?xs = take 2 ?xs @ drop (Suc 2) ?xs"
    using dedup_day_first_occurrences[of ?d ?xs] hyp by blast
  then show ?thesis by simp
qed

section \<open>Properties of the range planner\<close>

text \<open>
  The loop produces the windows \<open>period_at 0, period_at 1, ...\<close>, as many as fit:
  \<open>(end_date - start_date) div delta + 1\<close> of them.
\<close>

declare get_date_ranges_loop.simps [simp del]

lemma second_pos: "0 < second" by (simp add: second_def)

lemma period_delta_pos: "0 < period_delta p"
  by (cases p) (simp_all add: day_def hour_def second_def)

lemma period_delta_ge_second: "second \<le> period_delta p"
  by (cases p) (simp_all add: day_def hour_def second_def)

lemma loop_closed:
  "get_date_ranges_loop p c e acc =
     acc @ (if c \<le> e then map (period_at p c e) [0..<nat ((e - c) div period_delta p + 1)] else [])"
proof (induction p c e acc rule: get_date_ranges_loop.induct)
  case (1 p c e acc)
  define d where "d = period_delta p"
  have dpos: "0 < d" by (simp add: d_def period_delta_pos)
  have dsec: "second \<le> d" by (simp add: d_def period_delta_ge_second)
  show ?case
  proof (cases "c \<le> e")
    case False
    then show ?thesis by (simp add: get_date_ranges_loop.simps[of p c e acc])
  next
    case True
    define pe where "pe = min (c + d - second) e"
    have step: "get_date_ranges_loop p c e acc =
                get_date_ranges_loop p (pe + second) e (acc @ [(c, pe)])"
      using True by (simp add: get_date_ranges_loop.simps[of p c e acc] pe_def d_def Let_def)
    have IH: "get_date_ranges_loop p (pe + second) e (acc @ [(c, pe)]) =
        (acc @ [(c, pe)]) @ (if pe + second \<le> e
           then map (period_at p (pe + second) e) [0..<nat ((e - (pe + second)) div d + 1)] else [])"
      using "1.IH"[OF True, of pe] by (simp add: pe_def d_def)
    have first: "period_at p c e 0 = (c, pe)"
      by (simp add: period_at_def pe_def d_def)
    show ?thesis
    proof (cases "c + d \<le> e")
      case far: True
      then have pe: "pe = c + d - second" using second_pos by (simp add: pe_def min_def)
      have cnt: "(e - c) div d + 1 = ((e - (c + d)) div d + 1) + 1"
      proof -
        have "e - c = (e - (c + d)) + 1 * d" by simp
        then have "(e - c) div d = (e - (c + d)) div d + 1"
          using dpos by (metis div_mult_self1 less_irrefl add.commute)
        then show ?thesis by simp
      qed
      have nn: "0 \<le> (e - (c + d)) div d" using far dpos by (simp add: pos_imp_zdiv_nonneg_iff)
      have shift: "period_at p (c + d) e k = period_at p c e (Suc k)" for k
        by (simp add: period_at_def d_def algebra_simps)
      have "nat ((e - c) div d + 1) = Suc (nat ((e - (c + d)) div d + 1))"
        using cnt nn by simp
      then have "map (period_at p c e) [0..<nat ((e - c) div d + 1)] =
                 period_at p c e 0 # map (period_at p (c + d) e) [0..<nat ((e - (c + d)) div d + 1)]"
        by (simp add: upt_conv_Cons map_Suc_upt[symmetric] shift del: upt_Suc)
      then show ?thesis
        using True far step IH first by (simp add: pe d_def)
    next
      case near: False
      then have gt: "e < pe + second" using second_pos by (simp add: pe_def min_def)
      have "(e - c) div d = 0" using True near dpos by (simp add: div_pos_pos_trivial)
      then have "map (period_at p c e) [0..<nat ((e - c) div d + 1)] = [period_at p c e 0]"
        by simp
      then show ?thesis
        using True gt step IH first by (simp add: d_def)
    qed
  qed
qed


lemma get_date_ranges_closed:
  "start_date \<le> end_date \<Longrightarrow>
   get_date_ranges start_date end_date p =
     map (period_at p start_date end_date)
       [0..<nat ((end_date - start_date) div period_delta p + 1)]"
  by (simp add: get_date_ranges_def loop_closed)





















section \<open>Properties of load\_incremental\_progress\<close>



lemma load_empty_processed: "load_progress_files {} run_dir = ({}, [], Map.empty)"
  by (simp add: load_progress_files_def split: option.splits)

text \<open>
  Claim C3. When the run directory holds a checkpoint whose recorded range differs from
  the range of the invocation in either bound, the load returns the empty set of
  processed dates, no sessions and no player details, whatever the two logs hold, and it
  returns a value, not an error. The same empty state is returned when there is no
  checkpoint file.
\<close>

theorem load_range_mismatch_is_empty:
  "(checkpoint_file run_dir = Holds (Dict ck)
      \<and> (ck_range_start ck \<noteq> Some (strftime_ymd range_start)
          \<or> ck_range_end ck \<noteq> Some (strftime_ymd range_end))
    \<longrightarrow> load_incremental_progress strftime_ymd range_start range_end run_dir
          = Inr ({}, [], Map.empty))
   \<and> (checkpoint_file run_dir = Missing
    \<longrightarrow> load_incremental_progress strftime_ymd range_start range_end run_dir
          = Inr ({}, [], Map.empty))"
  by (auto simp: load_incremental_progress_def safe_read_json_def load_empty_processed Let_def)


text \<open>
  The theorem at a checkpoint recorded for 2024-01-01 to 2024-01-05, loaded for 2024-02-01
  to 2024-02-05 with a non-empty sessions log, and at a directory with no checkpoint.
\<close>

theorem load_range_mismatch_is_empty_witness:
  "load_incremental_progress (\<lambda>t. if t = 0 then ''2024-02-01'' else ''2024-02-05'') 0 (4 * day)
     \<lparr>checkpoint_file = Holds (Dict \<lparr>ck_range_start = Some ''2024-01-01'',
          ck_range_end = Some ''2024-01-05'', ck_processed_dates = Some [''2024-01-01''],
          ck_total_sessions = Some 1, ck_last_updated = Some ''2024-01-06T10:00:00Z''\<rparr>),
       progress_sessions = Some [Decoded \<lparr>sr_date = Some ''2024-01-01'',
          sr_sessions = Some [[(''sessionDetails'', JStr ''a'')]]\<rparr>],
       progress_players = Some []\<rparr>
     = Inr ({}, [], Map.empty)
   \<and> load_incremental_progress (\<lambda>t. if t = 0 then ''2024-02-01'' else ''2024-02-05'') 0 (4 * day)
     \<lparr>checkpoint_file = Missing,
       progress_sessions = Some [Decoded \<lparr>sr_date = Some ''2024-01-01'',
          sr_sessions = Some [[(''sessionDetails'', JStr ''a'')]]\<rparr>],
       progress_players = None\<rparr>
     = Inr ({}, [], Map.empty)"
proof -
  let ?f = "\<lambda>t::int. if t = 0 then ''2024-02-01'' else ''2024-02-05''"
  let ?ck = "\<lparr>ck_range_start = Some ''2024-01-01'',
          ck_range_end = Some ''2024-01-05'', ck_processed_dates = Some [''2024-01-01''],
          ck_total_sessions = Some 1, ck_last_updated = Some ''2024-01-06T10:00:00Z''\<rparr>"
  let ?log = "Some [Decoded \<lparr>sr_date = Some ''2024-01-01'',
          sr_sessions = Some [[(''sessionDetails'', JStr ''a'')]]\<rparr>]"
  let ?d1 = "\<lparr>checkpoint_file = Holds (Dict ?ck), progress_sessions = ?log,
               progress_players = Some []\<rparr>"
  let ?d2 = "\<lparr>checkpoint_file = Missing, progress_sessions = ?log, progress_players = None\<rparr>"
  have h1: "checkpoint_file ?d1 = Holds (Dict ?ck)
      \<and> (ck_range_start ?ck \<noteq> Some (?f 0) \<or> ck_range_end ?ck \<noteq> Some (?f (4 * day)))"
    by simp
  have h2: "checkpoint_file ?d2 = Missing" by simp
  have "load_incremental_progress ?f 0 (4 * day) ?d1 = Inr ({}, [], Map.empty)"
    using load_range_mismatch_is_empty[of ?d1 ?ck ?f 0 "4 * day"] h1 by blast
  moreover have "load_incremental_progress ?f 0 (4 * day) ?d2 = Inr ({}, [], Map.empty)"
    using load_range_mismatch_is_empty[of ?d2 ?ck ?f 0 "4 * day"] h2 by blast
  ultimately show ?thesis by blast
qed





section \<open>Properties of the day extractor\<close>

lemma get_full_sessions_eq:
  "get_full_sessions client start_date end_date =
     (case responses client (length (posts client)) of
        Post_raises \<Rightarrow> None | Post_returns r \<Rightarrow> Some r,
      client\<lparr>posts := posts client @
         [(Get_full_sessions (api_key client) start_date end_date, timeout client)]\<rparr>)"
  by (simp add: get_full_sessions_def post_def split: post_outcome.splits)

lemma hourly_fallback_eq:
  "hourly_fallback client rs acc =
     (acc @ concat (map (\<lambda>k. response_sessions (responses client (length (posts client) + k)))
                      [0..<length rs]),
      client\<lparr>posts := posts client @
         map (\<lambda>(hs, he). (Get_full_sessions (api_key client) hs he, timeout client)) rs\<rparr>)"
proof (induction rs arbitrary: client acc)
  case Nil
  show ?case by simp
next
  case (Cons r rest)
  obtain hs he where r: "r = (hs, he)" by (cases r)
  have upt: "[0..<Suc (length rest)] = 0 # map Suc [0..<length rest]"
    by (simp add: upt_conv_Cons map_Suc_upt del: upt_Suc)
  show ?case
    unfolding r
    by (cases "responses client (length (posts client))")
       (simp_all add: get_full_sessions_eq Cons.IH o_def upt del: upt_Suc)
qed

text \<open>
  Claim C10. For every client, every scripted outcome of the probe request (data, no data,
  a raised request), every value of the environment variable and every date string, the
  client's timeout after \<open>has_data_for_day\<close> is the timeout before the call: also when
  the date does not parse (the handler's path) and when the environment variable is not
  an integer (the function raises before it touches the timeout). Hence the timeout after
  a whole \<open>extract_day_with_smart_fallback\<close> is the one before it, too.
\<close>

theorem has_data_for_day_restores_timeout:
  "timeout (snd (has_data_for_day strptime_ymd client date_str)) = timeout client
   \<and> timeout (snd (extract_day_with_smart_fallback strptime_ymd client day_start day_end date_str))
       = timeout client"
proof
  show probe: "timeout (snd (has_data_for_day strptime_ymd c date_str)) = timeout c" for c
    by (simp add: has_data_for_day_def get_full_sessions_eq Let_def
           split: env_value.splits option.splits)
  let ?c1 = "client\<lparr>posts := posts client @
         [(Get_full_sessions (api_key client) day_start day_end, timeout client)]\<rparr>"
  obtain r c2 where h: "has_data_for_day strptime_ymd ?c1 date_str = (r, c2)"
    by (cases "has_data_for_day strptime_ymd ?c1 date_str")
  have "timeout c2 = timeout client" using probe[of ?c1] h by simp
  then show "timeout (snd (extract_day_with_smart_fallback strptime_ymd client day_start day_end
      date_str)) = timeout client"
    by (simp add: extract_day_with_smart_fallback_def get_full_sessions_eq h hourly_fallback_eq
          split: post_outcome.splits sum.splits bool.splits)
qed

lemma hours_of_full_day:
  "get_date_ranges day_start (day_start + day - second) Hour =
     map (\<lambda>k. (day_start + int k * hour, day_start + (int k + 1) * hour - second)) [0..<24]"
proof -
  have le: "day_start \<le> day_start + day - second" by (simp add: day_def second_def)
  have n: "nat ((day_start + day - second - day_start) div period_delta Hour + 1) = 24"
    by (simp add: day_def hour_def second_def)
  have "map (period_at Hour day_start (day_start + day - second)) [0..<24] =
        map (\<lambda>k. (day_start + int k * hour, day_start + (int k + 1) * hour - second)) [0..<24]"
  proof (rule map_cong[OF refl])
    fix k assume "k \<in> set [0..<24]"
    then have "int k + 1 \<le> 24" by simp
    then have "(int k + 1) * hour \<le> 24 * hour"
      by (rule mult_right_mono) (simp add: hour_def second_def)
    then have "(int k + 1) * hour \<le> day" by (simp add: day_def hour_def)
    then show "period_at Hour day_start (day_start + day - second) k =
          (day_start + int k * hour, day_start + (int k + 1) * hour - second)"
      by (simp add: period_at_def min_def)
  qed
  then show ?thesis using get_date_ranges_closed[OF le, of Hour] n by simp
qed


lemma has_data_for_day_eq:
  assumes "discovery_env client \<noteq> Env_not_an_int"
  shows "has_data_for_day strptime_ymd client date_str =
    (case strptime_ymd date_str of
       None \<Rightarrow> (Inr False, client)
     | Some ps \<Rightarrow>
        (Inr (response_sessions (responses client (length (posts client))) \<noteq> []),
         client\<lparr>posts := posts client @
           [(Get_full_sessions (api_key client) ps (replace_hms ps 23 59 59),
             of_int (probe_timeout client))]\<rparr>))"
  using assms
  by (cases "responses client (length (posts client))")
     (simp_all add: has_data_for_day_def get_full_sessions_eq probe_timeout_def Let_def
         split: env_value.splits option.splits)

text \<open>
  Claim C2. The environment variable is readable and the full-day request, the first of
  the call, raises (\<open>get_full_sessions\<close> returns \<open>None\<close>).
  \<^item> If the date string does not parse, the probe fails before it sends: the result is the
    empty list, and the full-day request is the only one made.
  \<^item> If the probe request raises or returns the empty list, the result is the empty list, and
    the only requests made are the full-day request and the probe (under the probe's
    timeout): no hourly request.
  \<^item> If the probe returns a non-empty list, the result is the concatenation, in the order of
    the hours, of what the hourly requests return, a raised request contributing nothing,
    and the requests made are the full-day request, the probe and one request per hourly
    period, in order, under the standard timeout.
  \<^item> If moreover the day is a full day (\<open>day_end = day_start + day - second\<close>) and the 24
    hourly requests return the empty list, the result is the empty list and exactly the 24
    hourly requests follow the probe.
\<close>

theorem extract_day_fallback:
  assumes env: "discovery_env client \<noteq> Env_not_an_int"
    and failed: "responses client (length (posts client)) = Post_raises"
  shows "(strptime_ymd date_str = None \<longrightarrow>
            extract_day_with_smart_fallback strptime_ymd client day_start day_end date_str =
              (Inr [], client\<lparr>posts := posts client @
                 [(Get_full_sessions (api_key client) day_start day_end, timeout client)]\<rparr>))
       \<and> (\<forall>ps. strptime_ymd date_str = Some ps
             \<and> (responses client (Suc (length (posts client))) = Post_raises
                 \<or> responses client (Suc (length (posts client))) = Post_returns [])
           \<longrightarrow> extract_day_with_smart_fallback strptime_ymd client day_start day_end date_str =
              (Inr [], client\<lparr>posts := posts client @
                 [(Get_full_sessions (api_key client) day_start day_end, timeout client),
                  (Get_full_sessions (api_key client) ps (replace_hms ps 23 59 59),
                   of_int (probe_timeout client))]\<rparr>))
       \<and> (\<forall>ps r. strptime_ymd date_str = Some ps
             \<and> responses client (Suc (length (posts client))) = Post_returns r \<and> r \<noteq> []
           \<longrightarrow> extract_day_with_smart_fallback strptime_ymd client day_start day_end date_str =
              (Inr (concat (map (\<lambda>k. response_sessions
                                        (responses client (length (posts client) + 2 + k)))
                              [0..<length (get_date_ranges day_start day_end Hour)])),
               client\<lparr>posts := posts client @
                 [(Get_full_sessions (api_key client) day_start day_end, timeout client),
                  (Get_full_sessions (api_key client) ps (replace_hms ps 23 59 59),
                   of_int (probe_timeout client))] @
                 map (\<lambda>(hs, he). (Get_full_sessions (api_key client) hs he, timeout client))
                   (get_date_ranges day_start day_end Hour)\<rparr>))
       \<and> (\<forall>ps r. strptime_ymd date_str = Some ps
             \<and> responses client (Suc (length (posts client))) = Post_returns r \<and> r \<noteq> []
             \<and> day_end = day_start + day - second
             \<and> (\<forall>k<24. responses client (length (posts client) + 2 + k) = Post_returns [])
           \<longrightarrow> fst (extract_day_with_smart_fallback strptime_ymd client day_start day_end date_str)
                 = Inr []
             \<and> posts (snd (extract_day_with_smart_fallback strptime_ymd client day_start day_end
                             date_str)) =
                 posts client @
                 [(Get_full_sessions (api_key client) day_start day_end, timeout client),
                  (Get_full_sessions (api_key client) ps (replace_hms ps 23 59 59),
                   of_int (probe_timeout client))] @
                 map (\<lambda>k. (Get_full_sessions (api_key client) (day_start + int k * hour)
                              (day_start + (int k + 1) * hour - second), timeout client))
                   [0..<24])"
proof -
  let ?full = "(Get_full_sessions (api_key client) day_start day_end, timeout client)"
  let ?c1 = "client\<lparr>posts := posts client @ [?full]\<rparr>"
  have first: "get_full_sessions client day_start day_end = (None, ?c1)"
    by (simp add: get_full_sessions_eq failed)
  have env1: "discovery_env ?c1 \<noteq> Env_not_an_int" using env by simp
  note probe = has_data_for_day_eq[OF env1, of strptime_ymd date_str]
  have a: "strptime_ymd date_str = None \<longrightarrow>
            extract_day_with_smart_fallback strptime_ymd client day_start day_end date_str =
              (Inr [], ?c1)"
    by (simp add: extract_day_with_smart_fallback_def first probe)
  have b: "\<forall>ps. strptime_ymd date_str = Some ps
             \<and> (responses client (Suc (length (posts client))) = Post_raises
                 \<or> responses client (Suc (length (posts client))) = Post_returns [])
           \<longrightarrow> extract_day_with_smart_fallback strptime_ymd client day_start day_end date_str =
              (Inr [], client\<lparr>posts := posts client @
                 [?full,
                  (Get_full_sessions (api_key client) ps (replace_hms ps 23 59 59),
                   of_int (probe_timeout client))]\<rparr>)"
    by (auto simp: extract_day_with_smart_fallback_def first probe probe_timeout_def)
  have c: "\<forall>ps r. strptime_ymd date_str = Some ps
             \<and> responses client (Suc (length (posts client))) = Post_returns r \<and> r \<noteq> []
           \<longrightarrow> extract_day_with_smart_fallback strptime_ymd client day_start day_end date_str =
              (Inr (concat (map (\<lambda>k. response_sessions
                                        (responses client (length (posts client) + 2 + k)))
                              [0..<length (get_date_ranges day_start day_end Hour)])),
               client\<lparr>posts := posts client @
                 [?full,
                  (Get_full_sessions (api_key client) ps (replace_hms ps 23 59 59),
                   of_int (probe_timeout client))] @
                 map (\<lambda>(hs, he). (Get_full_sessions (api_key client) hs he, timeout client))
                   (get_date_ranges day_start day_end Hour)\<rparr>)"
    by (auto simp: extract_day_with_smart_fallback_def first probe probe_timeout_def
          hourly_fallback_eq)
  have d: "\<forall>ps r. strptime_ymd date_str = Some ps
             \<and> responses client (Suc (length (posts client))) = Post_returns r \<and> r \<noteq> []
             \<and> day_end = day_start + day - second
             \<and> (\<forall>k<24. responses client (length (posts client) + 2 + k) = Post_returns [])
           \<longrightarrow> fst (extract_day_with_smart_fallback strptime_ymd client day_start day_end date_str)
                 = Inr []
             \<and> posts (snd (extract_day_with_smart_fallback strptime_ymd client day_start day_end
                             date_str)) =
                 posts client @
                 [?full,
                  (Get_full_sessions (api_key client) ps (replace_hms ps 23 59 59),
                   of_int (probe_timeout client))] @
                 map (\<lambda>k. (Get_full_sessions (api_key client) (day_start + int k * hour)
                              (day_start + (int k + 1) * hour - second), timeout client))
                   [0..<24]"
  proof (intro allI impI)
    fix ps r
    assume h: "strptime_ymd date_str = Some ps
             \<and> responses client (Suc (length (posts client))) = Post_returns r \<and> r \<noteq> []
             \<and> day_end = day_start + day - second
             \<and> (\<forall>k<24. responses client (length (posts client) + 2 + k) = Post_returns [])"
    have hrs: "get_date_ranges day_start day_end Hour =
        map (\<lambda>k. (day_start + int k * hour, day_start + (int k + 1) * hour - second)) [0..<24]"
      using h hours_of_full_day by simp
    have len: "length (get_date_ranges day_start day_end Hour) = 24"
      unfolding hrs by simp
    have empty: "concat (map (\<lambda>k. response_sessions
                                  (responses client (length (posts client) + 2 + k)))
                          [0..<24]) = []"
      using h by simp
    have e: "extract_day_with_smart_fallback strptime_ymd client day_start day_end date_str =
              (Inr [],
               client\<lparr>posts := posts client @
                 [?full,
                  (Get_full_sessions (api_key client) ps (replace_hms ps 23 59 59),
                   of_int (probe_timeout client))] @
                 map (\<lambda>(hs, he). (Get_full_sessions (api_key client) hs he, timeout client))
                   (get_date_ranges day_start day_end Hour)\<rparr>)"
      using c h len empty by simp
    show "fst (extract_day_with_smart_fallback strptime_ymd client day_start day_end date_str)
                 = Inr []
             \<and> posts (snd (extract_day_with_smart_fallback strptime_ymd client day_start day_end
                             date_str)) =
                 posts client @
                 [?full,
                  (Get_full_sessions (api_key client) ps (replace_hms ps 23 59 59),
                   of_int (probe_timeout client))] @
                 map (\<lambda>k. (Get_full_sessions (api_key client) (day_start + int k * hour)
                              (day_start + (int k + 1) * hour - second), timeout client))
                   [0..<24]"
      unfolding e by (simp add: hrs o_def del: upt_Suc)
  qed
  show ?thesis using a b c d by blast
qed


text \<open>
  The theorem at three scripts for the day from 00:00:00 to 23:59:59: the probe finds
  nothing (two requests); the probe finds data and every hour is empty (26 requests, empty
  result); the probe finds data, hour 1 returns one session, hour 3 raises and hour 5
  returns two sessions.
\<close>

theorem extract_day_fallback_witness:
  "fst (extract_day_with_smart_fallback (\<lambda>s. Some 0)
          \<lparr>api_key = ''k'', timeout = 60, discovery_env = Env_unset,
            responses = (\<lambda>n. if n = 0 then Post_raises else Post_returns []), posts = []\<rparr>
          0 (day - second) ''2024-03-02'') = Inr []
   \<and> length (posts (snd (extract_day_with_smart_fallback (\<lambda>s. Some 0)
          \<lparr>api_key = ''k'', timeout = 60, discovery_env = Env_unset,
            responses = (\<lambda>n. if n = 0 then Post_raises else Post_returns []), posts = []\<rparr>
          0 (day - second) ''2024-03-02''))) = 2
   \<and> fst (extract_day_with_smart_fallback (\<lambda>s. Some 0)
          \<lparr>api_key = ''k'', timeout = 60, discovery_env = Env_unset,
            responses = (\<lambda>n. if n = 0 then Post_raises
                              else if n = 1 then Post_returns [[(''id'', JInt 1)]]
                              else Post_returns []), posts = []\<rparr>
          0 (day - second) ''2024-03-02'') = Inr []
   \<and> length (posts (snd (extract_day_with_smart_fallback (\<lambda>s. Some 0)
          \<lparr>api_key = ''k'', timeout = 60, discovery_env = Env_unset,
            responses = (\<lambda>n. if n = 0 then Post_raises
                              else if n = 1 then Post_returns [[(''id'', JInt 1)]]
                              else Post_returns []), posts = []\<rparr>
          0 (day - second) ''2024-03-02''))) = 26
   \<and> fst (extract_day_with_smart_fallback (\<lambda>s. Some 0)
          \<lparr>api_key = ''k'', timeout = 60, discovery_env = Env_unset,
            responses = (\<lambda>n. if n = 0 then Post_raises
                              else if n = 1 then Post_returns [[(''id'', JInt 1)]]
                              else if n = 3 then Post_returns [[(''id'', JInt 1)]]
                              else if n = 5 then Post_raises
                              else if n = 7 then Post_returns [[(''id'', JInt 2)], [(''id'', JInt 3)]]
                              else Post_returns []), posts = []\<rparr>
          0 (day - second) ''2024-03-02'')
       = Inr [[(''id'', JInt 1)], [(''id'', JInt 2)], [(''id'', JInt 3)]]"
proof -
  let ?p = "\<lambda>s::string. Some (0::int)"
  let ?r1 = "\<lambda>n::nat. if n = 0 then Post_raises else Post_returns []"
  let ?r2 = "\<lambda>n::nat. if n = 0 then Post_raises
                     else if n = 1 then Post_returns [[(''id'', JInt 1)]]
                     else Post_returns []"
  let ?r3 = "\<lambda>n::nat. if n = 0 then Post_raises
                     else if n = 1 then Post_returns [[(''id'', JInt 1)]]
                     else if n = 3 then Post_returns [[(''id'', JInt 1)]]
                     else if n = 5 then Post_raises
                     else if n = 7 then Post_returns [[(''id'', JInt 2)], [(''id'', JInt 3)]]
                     else Post_returns []"
  let ?c = "\<lambda>r. \<lparr>api_key = ''k'', timeout = 60, discovery_env = Env_unset, responses = r,
                 posts = []\<rparr>"
  have len: "length (get_date_ranges 0 (day - second) Hour) = 24"
    using hours_of_full_day[of 0] by simp
  have env: "discovery_env (?c r) \<noteq> Env_not_an_int" for r by simp
  have f1: "responses (?c ?r1) (length (posts (?c ?r1))) = Post_raises" by simp
  have f2: "responses (?c ?r2) (length (posts (?c ?r2))) = Post_raises" by simp
  have f3: "responses (?c ?r3) (length (posts (?c ?r3))) = Post_raises" by simp
  note t1 = extract_day_fallback[OF env f1, of ?p "''2024-03-02''" 0 "day - second"]
  note t2 = extract_day_fallback[OF env f2, of ?p "''2024-03-02''" 0 "day - second"]
  note t3 = extract_day_fallback[OF env f3, of ?p "''2024-03-02''" 0 "day - second"]
  have h1: "?p ''2024-03-02'' = Some 0
      \<and> (responses (?c ?r1) (Suc (length (posts (?c ?r1)))) = Post_raises
         \<or> responses (?c ?r1) (Suc (length (posts (?c ?r1)))) = Post_returns [])"
    by simp
  have w1: "extract_day_with_smart_fallback ?p (?c ?r1) 0 (day - second) ''2024-03-02'' =
        (Inr [], (?c ?r1)\<lparr>posts := posts (?c ?r1) @
                 [(Get_full_sessions (api_key (?c ?r1)) 0 (day - second), timeout (?c ?r1)),
                  (Get_full_sessions (api_key (?c ?r1)) 0 (replace_hms 0 23 59 59),
                   of_int (probe_timeout (?c ?r1)))]\<rparr>)"
    by (rule t1[THEN conjunct2, THEN conjunct1, rule_format, OF h1])
  have h2: "?p ''2024-03-02'' = Some 0
      \<and> responses (?c ?r2) (Suc (length (posts (?c ?r2)))) = Post_returns [[(''id'', JInt 1)]]
      \<and> [[(''id'', JInt 1)]] \<noteq> ([] :: session list)
      \<and> day - second = 0 + day - second
      \<and> (\<forall>k<24. responses (?c ?r2) (length (posts (?c ?r2)) + 2 + k) = Post_returns [])"
    by simp
  have w2: "fst (extract_day_with_smart_fallback ?p (?c ?r2) 0 (day - second) ''2024-03-02'')
                 = Inr []
             \<and> posts (snd (extract_day_with_smart_fallback ?p (?c ?r2) 0 (day - second)
                             ''2024-03-02'')) =
                 posts (?c ?r2) @
                 [(Get_full_sessions (api_key (?c ?r2)) 0 (day - second), timeout (?c ?r2)),
                  (Get_full_sessions (api_key (?c ?r2)) 0 (replace_hms 0 23 59 59),
                   of_int (probe_timeout (?c ?r2)))] @
                 map (\<lambda>k. (Get_full_sessions (api_key (?c ?r2)) (0 + int k * hour)
                              (0 + (int k + 1) * hour - second), timeout (?c ?r2)))
                   [0..<24]"
    by (rule t2[THEN conjunct2, THEN conjunct2, THEN conjunct2, rule_format, OF h2])
  have h3: "?p ''2024-03-02'' = Some 0
      \<and> responses (?c ?r3) (Suc (length (posts (?c ?r3)))) = Post_returns [[(''id'', JInt 1)]]
      \<and> [[(''id'', JInt 1)]] \<noteq> ([] :: session list)"
    by simp
  have w3: "fst (extract_day_with_smart_fallback ?p (?c ?r3) 0 (day - second) ''2024-03-02'') =
      Inr (concat (map (\<lambda>k. response_sessions (responses (?c ?r3) (length (posts (?c ?r3)) + 2 + k)))
                     [0..<length (get_date_ranges 0 (day - second) Hour)]))"
    by (simp only: t3[THEN conjunct2, THEN conjunct2, THEN conjunct1, rule_format, OF h3] fst_conv)
  have c3: "concat (map (\<lambda>k. response_sessions
                  (responses (?c ?r3) (length (posts (?c ?r3)) + 2 + k))) [0..<24])
      = [[(''id'', JInt 1)], [(''id'', JInt 2)], [(''id'', JInt 3)]]"
    by code_simp
  have a1: "fst (extract_day_with_smart_fallback ?p (?c ?r1) 0 (day - second) ''2024-03-02'')
      = Inr []"
    by (simp add: w1)
  have a2: "length (posts (snd (extract_day_with_smart_fallback ?p (?c ?r1) 0 (day - second)
      ''2024-03-02''))) = 2"
    by (simp add: w1)
  have b1: "fst (extract_day_with_smart_fallback ?p (?c ?r2) 0 (day - second) ''2024-03-02'')
      = Inr []"
    by (rule w2[THEN conjunct1])
  have b2: "length (posts (snd (extract_day_with_smart_fallback ?p (?c ?r2) 0 (day - second)
      ''2024-03-02''))) = 26"
    by (simp add: w2[THEN conjunct2] del: upt_Suc)
  have c: "fst (extract_day_with_smart_fallback ?p (?c ?r3) 0 (day - second) ''2024-03-02'')
      = Inr [[(''id'', JInt 1)], [(''id'', JInt 2)], [(''id'', JInt 3)]]"
    unfolding w3 len c3 by (rule refl)
  show ?thesis
    by (intro conjI) (fact a1, fact a2, fact b1, fact b2, fact c)
qed

section \<open>Properties of the orchestrator loop\<close>

lemma journal_append_day_progress:
  "journal (append_day_progress st k ss ps) =
     journal st @ [Log_append k (write_outcomes st (writes st) = Write_ok)
                                (write_outcomes st (Suc (writes st)) = Write_ok)]"
  by (simp add: append_day_progress_def Let_def)

lemma journal_update_checkpoint:
  "\<exists>ck outcome. journal (update_checkpoint f st a b ds n) = journal st @ [Checkpoint_write ck outcome]
      \<and> ck_processed_dates ck = Some ds"
  by (simp add: update_checkpoint_def Let_def)

lemma process_day_cases:
  assumes "process_day f g dm sd ed p s = (r, s')"
  shows "(s' = s \<and> r = None \<and> f (fst p) \<in> processed_dates s)
       \<or> (f (fst p) \<notin> processed_dates s \<and> r \<noteq> None
            \<and> processed_dates s' = processed_dates s \<and> disk s' = disk s)
       \<or> (f (fst p) \<notin> processed_dates s \<and> r = None
            \<and> processed_dates s' = insert (f (fst p)) (processed_dates s)
            \<and> (\<exists>ss ps. disk s' =
                  update_checkpoint f
                    (append_day_progress (disk s) (f (fst p) @ ''T00:00:00Z'') ss ps)
                    sd ed (sorted_list_of_set (insert (f (fst p)) (processed_dates s)))
                    (int (length (all_sessions s')))))"
proof -
  obtain ds de where p: "p = (ds, de)" by (cases p)
  show ?thesis
    using assms unfolding p
    by (auto simp: Let_def split: if_splits prod.splits sum.splits) blast+
qed


lemma process_day_finite:
  assumes fin: "finite (processed_dates s)"
    and pd: "process_day f g dm sd ed p s = (r, s')"
  shows "finite (processed_dates s')"
  using process_day_cases[OF pd] fin by auto

lemma process_day_events:
  assumes fin: "finite (processed_dates s)"
    and pd: "process_day f g dm sd ed p s = (r, s')"
  shows "\<exists>evs. journal (disk s') = journal (disk s) @ evs
           \<and> run_events (processed_dates s) evs (processed_dates s')"
proof -
  from process_day_cases[OF pd] show ?thesis
  proof (elim disjE conjE exE)
    assume "s' = s"
    then show ?thesis by (simp add: run_events.no_day)
  next
    assume "processed_dates s' = processed_dates s" "disk s' = disk s"
    then show ?thesis by (simp add: run_events.no_day)
  next
    fix ss ps
    assume notin: "f (fst p) \<notin> processed_dates s"
      and P': "processed_dates s' = insert (f (fst p)) (processed_dates s)"
      and d: "disk s' =
         update_checkpoint f (append_day_progress (disk s) (f (fst p) @ ''T00:00:00Z'') ss ps)
           sd ed (sorted_list_of_set (insert (f (fst p)) (processed_dates s)))
           (int (length (all_sessions s')))"
    obtain ck outcome where j: "journal (disk s') =
        journal (append_day_progress (disk s) (f (fst p) @ ''T00:00:00Z'') ss ps)
          @ [Checkpoint_write ck outcome]"
      and ck: "ck_processed_dates ck =
          Some (sorted_list_of_set (insert (f (fst p)) (processed_dates s)))"
      using journal_update_checkpoint unfolding d by blast
    have setds: "set (sorted_list_of_set (insert (f (fst p)) (processed_dates s))) =
          insert (f (fst p)) (processed_dates s)"
      by (rule sorted_list_of_set.set_sorted_key_list_of_set) (simp add: fin)
    let ?a = "write_outcomes (disk s) (writes (disk s)) = Write_ok"
    let ?b = "write_outcomes (disk s) (Suc (writes (disk s))) = Write_ok"
    let ?d = "f (fst p)"
    let ?evs = "[Log_append (?d @ ''T00:00:00Z'') ?a ?b, Checkpoint_write ck outcome]"
    have j': "journal (disk s') = journal (disk s) @ ?evs"
      by (simp add: j journal_append_day_progress)
    have "run_events (processed_dates s) ?evs (insert ?d (processed_dates s))"
      by (rule run_events.one_day[OF notin ck setds run_events.no_day])
    then have "run_events (processed_dates s) ?evs (processed_dates s')"
      by (simp only: P')
    with j' show ?thesis by (intro exI[of _ ?evs] conjI)
  qed
qed

lemma run_events_append:
  "run_events P e1 Q \<Longrightarrow> run_events Q e2 R \<Longrightarrow> run_events P (e1 @ e2) R"
  by (induction rule: run_events.induct) (auto intro: run_events.one_day)

lemma days_loop_finite:
  assumes "finite (processed_dates s)"
    and "days_loop f g dm sd ed ps s = (r, s')"
  shows "finite (processed_dates s')"
  using assms
proof (induction ps arbitrary: s)
  case Nil
  then show ?case by simp
next
  case (Cons p rest)
  obtain r1 s1 where pd: "process_day f g dm sd ed p s = (r1, s1)"
    by (cases "process_day f g dm sd ed p s")
  have fin1: "finite (processed_dates s1)" by (rule process_day_finite[OF Cons.prems(1) pd])
  show ?case
  proof (cases r1)
    case None
    then have "days_loop f g dm sd ed rest s1 = (r, s')" using Cons.prems(2) pd by simp
    from Cons.IH[OF fin1 this] show ?thesis .
  next
    case (Some e)
    then have "s' = s1" using Cons.prems(2) pd by simp
    then show ?thesis using fin1 by simp
  qed
qed

lemma days_loop_events:
  assumes "finite (processed_dates s)"
    and "days_loop f g dm sd ed ps s = (r, s')"
  shows "\<exists>evs. journal (disk s') = journal (disk s) @ evs
           \<and> run_events (processed_dates s) evs (processed_dates s')"
  using assms
proof (induction ps arbitrary: s)
  case Nil
  then show ?case by (simp add: run_events.no_day)
next
  case (Cons p rest)
  obtain r1 s1 where pd: "process_day f g dm sd ed p s = (r1, s1)"
    by (cases "process_day f g dm sd ed p s")
  have fin1: "finite (processed_dates s1)" by (rule process_day_finite[OF Cons.prems(1) pd])
  obtain evs1 where j1: "journal (disk s1) = journal (disk s) @ evs1"
    and re1: "run_events (processed_dates s) evs1 (processed_dates s1)"
    using process_day_events[OF Cons.prems(1) pd] by blast
  have "\<exists>evs2. journal (disk s') = journal (disk s1) @ evs2
           \<and> run_events (processed_dates s1) evs2 (processed_dates s')"
  proof (cases r1)
    case None
    then have "days_loop f g dm sd ed rest s1 = (r, s')" using Cons.prems(2) pd by simp
    from Cons.IH[OF fin1 this] show ?thesis .
  next
    case (Some e)
    then have "s' = s1" using Cons.prems(2) pd by simp
    then show ?thesis by (simp add: run_events.no_day)
  qed
  then obtain evs2 where j2: "journal (disk s') = journal (disk s1) @ evs2"
    and re2: "run_events (processed_dates s1) evs2 (processed_dates s')" by blast
  have "journal (disk s') = journal (disk s) @ (evs1 @ evs2)" by (simp add: j1 j2)
  moreover have "run_events (processed_dates s) (evs1 @ evs2) (processed_dates s')"
    by (rule run_events_append[OF re1 re2])
  ultimately show ?case by blast
qed


lemma run_events_subset: "run_events P evs Q \<Longrightarrow> P \<subseteq> Q"
  by (induction rule: run_events.induct) auto

lemma run_events_chain:
  "run_events P evs Q \<Longrightarrow>
     sorted_wrt (\<lambda>a b. set a \<subseteq> set b) (checkpoint_dates evs)
     \<and> (\<forall>ds \<in> set (checkpoint_dates evs). P \<subseteq> set ds \<and> set ds \<subseteq> Q)"
proof (induction rule: run_events.induct)
  case (no_day P)
  show ?case by simp
next
  case (one_day d P ck ds evs Q a b outcome)
  have "insert d P \<subseteq> Q" by (rule run_events_subset[OF one_day.hyps(4)])
  then show ?case
    using one_day.IH one_day.hyps(2,3) by (auto simp: listed_dates_def)
qed











text \<open>
  Claim C9. The orchestrator starts a step with a finite set of processed dates.
  \<^item> One step of the loop (\<open>process_day\<close>) leaves the set as it is (the day is skipped, or an
    exception leaves the step) or adds exactly one date that was not in it.
  \<^item> Over the loop, whether it completes or an exception leaves it, the final set contains
    the initial one; the lists of processed dates carried by the checkpoint writes of the
    run, in the order they are written, are increasing (each is contained in every later
    one), and each contains the set the run started with.
\<close>

theorem processed_dates_grow:
  assumes fin: "finite (processed_dates s)"
  shows "(\<forall>p r s1. process_day f g dm sd ed p s = (r, s1) \<longrightarrow>
            processed_dates s1 = processed_dates s
          \<or> (f (fst p) \<notin> processed_dates s
              \<and> processed_dates s1 = insert (f (fst p)) (processed_dates s)))
       \<and> (\<forall>ps r s' evs. days_loop f g dm sd ed ps s = (r, s')
              \<and> journal (disk s') = journal (disk s) @ evs \<longrightarrow>
            processed_dates s \<subseteq> processed_dates s'
          \<and> sorted_wrt (\<lambda>a b. set a \<subseteq> set b) (checkpoint_dates evs)
          \<and> (\<forall>ds \<in> set (checkpoint_dates evs).
                processed_dates s \<subseteq> set ds \<and> set ds \<subseteq> processed_dates s'))"
proof (intro conjI allI impI)
  fix p r s1
  assume "process_day f g dm sd ed p s = (r, s1)"
  from process_day_cases[OF this]
  show "processed_dates s1 = processed_dates s
          \<or> (f (fst p) \<notin> processed_dates s
              \<and> processed_dates s1 = insert (f (fst p)) (processed_dates s))"
    by auto
next
  fix ps r s' evs
  assume h: "days_loop f g dm sd ed ps s = (r, s') \<and> journal (disk s') = journal (disk s) @ evs"
  then obtain evs' where j: "journal (disk s') = journal (disk s) @ evs'"
    and re: "run_events (processed_dates s) evs' (processed_dates s')"
    using days_loop_events[OF fin, of f g dm sd ed ps r s'] by blast
  have "evs' = evs" using j h by simp
  then have re: "run_events (processed_dates s) evs (processed_dates s')" using re by simp
  show "processed_dates s \<subseteq> processed_dates s'" by (rule run_events_subset[OF re])
  show "sorted_wrt (\<lambda>a b. set a \<subseteq> set b) (checkpoint_dates evs)"
    using run_events_chain[OF re] by (rule conjunct1)
  show "\<forall>ds \<in> set (checkpoint_dates evs).
                processed_dates s \<subseteq> set ds \<and> set ds \<subseteq> processed_dates s'"
    using run_events_chain[OF re] by (rule conjunct2)
qed


text \<open>
  The theorem at a run over two days, from an empty set of processed dates: the two
  checkpoint writes list 2024-03-01, then 2024-03-01 and 2024-03-02.
\<close>

theorem processed_dates_grow_witness:
  "checkpoint_dates (journal (disk (snd (days_loop
     (\<lambda>t. if t < day then ''2024-03-01'' else ''2024-03-02'') (\<lambda>s. Some 0)
     (\<lambda>j. case j of JStr x \<Rightarrow> x | _ \<Rightarrow> []) 0 day [(0, day - second), (day, day)]
     \<lparr>processed_dates = {}, all_sessions = [], all_player_details = Map.empty,
       remote = \<lparr>api_key = ''k'', timeout = 60, discovery_env = Env_unset,
         responses = (\<lambda>n. if n = 0 then Post_returns [[(''sessionDetails'', JStr ''a'')]]
                           else Post_returns []), posts = []\<rparr>,
       disk = \<lparr>directory = \<lparr>checkpoint_file = Missing, progress_sessions = None,
                               progress_players = None\<rparr>,
                write_outcomes = (\<lambda>n. Write_ok), writes = 0,
                utcnow = (\<lambda>n. ''2024-03-04T10:00:00Z''), journal = []\<rparr>\<rparr>))))
     = [[''2024-03-01''], [''2024-03-01'', ''2024-03-02'']]
   \<and> sorted_wrt (\<lambda>a b. set a \<subseteq> set b)
       (checkpoint_dates (journal (disk (snd (days_loop
     (\<lambda>t. if t < day then ''2024-03-01'' else ''2024-03-02'') (\<lambda>s. Some 0)
     (\<lambda>j. case j of JStr x \<Rightarrow> x | _ \<Rightarrow> []) 0 day [(0, day - second), (day, day)]
     \<lparr>processed_dates = {}, all_sessions = [], all_player_details = Map.empty,
       remote = \<lparr>api_key = ''k'', timeout = 60, discovery_env = Env_unset,
         responses = (\<lambda>n. if n = 0 then Post_returns [[(''sessionDetails'', JStr ''a'')]]
                           else Post_returns []), posts = []\<rparr>,
       disk = \<lparr>directory = \<lparr>checkpoint_file = Missing, progress_sessions = None,
                               progress_players = None\<rparr>,
                write_outcomes = (\<lambda>n. Write_ok), writes = 0,
                utcnow = (\<lambda>n. ''2024-03-04T10:00:00Z''), journal = []\<rparr>\<rparr>)))))"
proof -
  let ?f = "\<lambda>t::int. if t < day then ''2024-03-01'' else ''2024-03-02''"
  let ?g = "\<lambda>s::string. Some (0::int)"
  let ?dm = "\<lambda>j. case j of JStr x \<Rightarrow> x | _ \<Rightarrow> []"
  let ?s0 = "\<lparr>processed_dates = {}, all_sessions = [], all_player_details = Map.empty,
       remote = \<lparr>api_key = ''k'', timeout = 60, discovery_env = Env_unset,
         responses = (\<lambda>n. if n = 0 then Post_returns [[(''sessionDetails'', JStr ''a'')]]
                           else Post_returns []), posts = []\<rparr>,
       disk = \<lparr>directory = \<lparr>checkpoint_file = Missing, progress_sessions = None,
                               progress_players = None\<rparr>,
                write_outcomes = (\<lambda>n. Write_ok), writes = 0,
                utcnow = (\<lambda>n. ''2024-03-04T10:00:00Z''), journal = []\<rparr>\<rparr>"
  let ?run = "days_loop ?f ?g ?dm 0 day [(0, day - second), (day, day)] ?s0"
  have fin: "finite (processed_dates ?s0)" by simp
  have H: "days_loop ?f ?g ?dm 0 day [(0, day - second), (day, day)] ?s0 = (fst ?run, snd ?run)
      \<and> journal (disk (snd ?run)) = journal (disk ?s0) @ journal (disk (snd ?run))"
    by simp
  have chain: "sorted_wrt (\<lambda>a b. set a \<subseteq> set b) (checkpoint_dates (journal (disk (snd ?run))))"
    by (rule processed_dates_grow[OF fin, THEN conjunct2, THEN spec, THEN spec, THEN spec,
          THEN spec, THEN mp, OF H, THEN conjunct2, THEN conjunct1])
  have dates: "checkpoint_dates (journal (disk (snd ?run)))
      = [[''2024-03-01''], [''2024-03-01'', ''2024-03-02'']]"
    by code_simp
  show ?thesis by (intro conjI) (fact dates, fact chain)
qed




section \<open>Properties of update\_checkpoint\<close>

lemma load_unparseable:
  "load_incremental_progress f a b (dir\<lparr>checkpoint_file := Unparseable\<rparr>) = Inr ({}, [], Map.empty)"
  by (simp add: load_incremental_progress_def safe_read_json_def load_progress_files_def
        empty_checkpoint_def split: option.splits)

text \<open>
  Claim C7, as the code has it. \<open>update_checkpoint\<close> writes into \<^verbatim>\<open>checkpoint.json\<close>
  itself; there is no temporary file and no rename.
  \<^item> When the write succeeds, the file holds the complete new document afterwards, and a
    load for the same range returns its processed dates.
  \<^item> When the write fails after the file was opened, the file is left partly written:
    it cannot be parsed, and a load returns the empty state.
  \<^item> When the file cannot be opened, the directory is unchanged.
  \<^item> During the call the file holds what it held before, a partly written document, or
    the new document; the partly written state occurs in every call that opens the file.
    A reader that loads in that state gets the empty state.
\<close>

theorem update_checkpoint_in_place:
  "(write_outcomes st (writes st) = Write_ok \<longrightarrow>
      checkpoint_file (directory (update_checkpoint f st a b ds n)) =
        Holds (Dict \<lparr>ck_range_start = Some (f a), ck_range_end = Some (f b),
                      ck_processed_dates = Some ds, ck_total_sessions = Some n,
                      ck_last_updated = Some (utcnow st (writes st))\<rparr>)
    \<and> (\<exists>ss pl. load_incremental_progress f a b (directory (update_checkpoint f st a b ds n))
                  = Inr (set ds, ss, pl)))
   \<and> (write_outcomes st (writes st) = Write_fails \<longrightarrow>
      checkpoint_file (directory (update_checkpoint f st a b ds n)) = Unparseable
    \<and> load_incremental_progress f a b (directory (update_checkpoint f st a b ds n))
        = Inr ({}, [], Map.empty))
   \<and> (write_outcomes st (writes st) = Open_fails \<longrightarrow>
      directory (update_checkpoint f st a b ds n) = directory st)
   \<and> (\<forall>old data outcome.
        set (checkpoint_write_states old data outcome) \<subseteq> {old, Unparseable, Holds (Dict data)}
      \<and> hd (checkpoint_write_states old data outcome) = old
      \<and> (outcome \<noteq> Open_fails \<longrightarrow> Unparseable \<in> set (checkpoint_write_states old data outcome)))
   \<and> (\<forall>dir. load_incremental_progress f a b (dir\<lparr>checkpoint_file := Unparseable\<rparr>)
         = Inr ({}, [], Map.empty))"
proof (intro conjI allI impI)
  assume ok: "write_outcomes st (writes st) = Write_ok"
  show "checkpoint_file (directory (update_checkpoint f st a b ds n)) =
        Holds (Dict \<lparr>ck_range_start = Some (f a), ck_range_end = Some (f b),
                      ck_processed_dates = Some ds, ck_total_sessions = Some n,
                      ck_last_updated = Some (utcnow st (writes st))\<rparr>)"
    by (simp add: update_checkpoint_def checkpoint_write_states_def ok Let_def)
  show "\<exists>ss pl. load_incremental_progress f a b (directory (update_checkpoint f st a b ds n))
                  = Inr (set ds, ss, pl)"
    by (simp add: update_checkpoint_def checkpoint_write_states_def ok Let_def
          load_incremental_progress_def safe_read_json_def load_progress_files_def
          empty_checkpoint_def)
next
  assume wf: "write_outcomes st (writes st) = Write_fails"
  show "checkpoint_file (directory (update_checkpoint f st a b ds n)) = Unparseable"
    by (simp add: update_checkpoint_def checkpoint_write_states_def wf Let_def)
  have "directory (update_checkpoint f st a b ds n) = (directory st)\<lparr>checkpoint_file := Unparseable\<rparr>"
    by (simp add: update_checkpoint_def checkpoint_write_states_def wf Let_def)
  then show "load_incremental_progress f a b (directory (update_checkpoint f st a b ds n))
        = Inr ({}, [], Map.empty)"
    by (simp only: load_unparseable)
next
  assume "write_outcomes st (writes st) = Open_fails"
  then show "directory (update_checkpoint f st a b ds n) = directory st"
    by (simp add: update_checkpoint_def checkpoint_write_states_def Let_def)
next
  fix old data outcome
  show "set (checkpoint_write_states old data outcome) \<subseteq> {old, Unparseable, Holds (Dict data)}"
    by (cases outcome) (simp_all add: checkpoint_write_states_def)
  show "hd (checkpoint_write_states old data outcome) = old"
    by (cases outcome) (simp_all add: checkpoint_write_states_def)
  assume "outcome \<noteq> Open_fails"
  then show "Unparseable \<in> set (checkpoint_write_states old data outcome)"
    by (cases outcome) (simp_all add: checkpoint_write_states_def)
next
  fix dir
  show "load_incremental_progress f a b (dir\<lparr>checkpoint_file := Unparseable\<rparr>)
         = Inr ({}, [], Map.empty)"
    by (rule load_unparseable)
qed

text \<open>The theorem at a successful write over an existing checkpoint.\<close>

theorem update_checkpoint_in_place_witness:
  "checkpoint_file (directory (update_checkpoint (\<lambda>t. if t = 0 then ''2024-03-01'' else ''2024-03-03'')
      \<lparr>directory = \<lparr>checkpoint_file = Holds (Dict \<lparr>ck_range_start = Some ''2024-03-01'',
            ck_range_end = Some ''2024-03-03'', ck_processed_dates = Some [],
            ck_total_sessions = Some 0, ck_last_updated = Some ''2024-03-04T09:00:00Z''\<rparr>),
          progress_sessions = Some [], progress_players = Some []\<rparr>,
        write_outcomes = (\<lambda>n. Write_ok), writes = 0,
        utcnow = (\<lambda>n. ''2024-03-04T10:00:00Z''), journal = []\<rparr>
      0 (2 * day) [''2024-03-01''] 5))
   = Holds (Dict \<lparr>ck_range_start = Some ''2024-03-01'', ck_range_end = Some ''2024-03-03'',
        ck_processed_dates = Some [''2024-03-01''], ck_total_sessions = Some 5,
        ck_last_updated = Some ''2024-03-04T10:00:00Z''\<rparr>)"
proof -
  let ?f = "\<lambda>t::int. if t = 0 then ''2024-03-01'' else ''2024-03-03''"
  let ?st = "\<lparr>directory = \<lparr>checkpoint_file = Holds (Dict \<lparr>ck_range_start = Some ''2024-03-01'',
            ck_range_end = Some ''2024-03-03'', ck_processed_dates = Some [],
            ck_total_sessions = Some 0, ck_last_updated = Some ''2024-03-04T09:00:00Z''\<rparr>),
          progress_sessions = Some [], progress_players = Some []\<rparr>,
        write_outcomes = (\<lambda>n. Write_ok), writes = 0,
        utcnow = (\<lambda>n. ''2024-03-04T10:00:00Z''), journal = []\<rparr>"
  have ok: "write_outcomes ?st (writes ?st) = Write_ok" by simp
  have "checkpoint_file (directory (update_checkpoint ?f ?st 0 (2 * day) [''2024-03-01''] 5)) =
        Holds (Dict \<lparr>ck_range_start = Some (?f 0), ck_range_end = Some (?f (2 * day)),
                      ck_processed_dates = Some [''2024-03-01''], ck_total_sessions = Some 5,
                      ck_last_updated = Some (utcnow ?st (writes ?st))\<rparr>)"
    by (rule update_checkpoint_in_place[THEN conjunct1, THEN mp, OF ok, THEN conjunct1])
  then show ?thesis by (simp add: day_def second_def)
qed

text \<open>
  The claim as it is written fails: between the old document and the new one the file
  is in a state that is neither, and a write that fails part-way leaves it there.
\<close>

theorem update_checkpoint_partial_counterexample:
  "checkpoint_write_states
      (Holds (Dict \<lparr>ck_range_start = Some ''2024-03-01'', ck_range_end = Some ''2024-03-03'',
         ck_processed_dates = Some [], ck_total_sessions = Some 0,
         ck_last_updated = Some ''2024-03-04T09:00:00Z''\<rparr>))
      \<lparr>ck_range_start = Some ''2024-03-01'', ck_range_end = Some ''2024-03-03'',
        ck_processed_dates = Some [''2024-03-01''], ck_total_sessions = Some 5,
        ck_last_updated = Some ''2024-03-04T10:00:00Z''\<rparr>
      Write_ok ! 1 = Unparseable
   \<and> Unparseable \<noteq> Holds (Dict \<lparr>ck_range_start = Some ''2024-03-01'',
         ck_range_end = Some ''2024-03-03'', ck_processed_dates = Some [],
         ck_total_sessions = Some 0, ck_last_updated = Some ''2024-03-04T09:00:00Z''\<rparr>)
   \<and> Unparseable \<noteq> Holds (Dict \<lparr>ck_range_start = Some ''2024-03-01'',
         ck_range_end = Some ''2024-03-03'', ck_processed_dates = Some [''2024-03-01''],
         ck_total_sessions = Some 5, ck_last_updated = Some ''2024-03-04T10:00:00Z''\<rparr>)
   \<and> checkpoint_file (directory (update_checkpoint (\<lambda>t. if t = 0 then ''2024-03-01'' else ''2024-03-03'')
      \<lparr>directory = \<lparr>checkpoint_file = Holds (Dict \<lparr>ck_range_start = Some ''2024-03-01'',
            ck_range_end = Some ''2024-03-03'', ck_processed_dates = Some [],
            ck_total_sessions = Some 0, ck_last_updated = Some ''2024-03-04T09:00:00Z''\<rparr>),
          progress_sessions = Some [], progress_players = Some []\<rparr>,
        write_outcomes = (\<lambda>n. Write_fails), writes = 0,
        utcnow = (\<lambda>n. ''2024-03-04T10:00:00Z''), journal = []\<rparr>
      0 (2 * day) [''2024-03-01''] 5)) = Unparseable"
  by (simp add: checkpoint_write_states_def update_checkpoint_def Let_def)

section \<open>Properties of the cross-run merge\<close>
















end
